theory Spec2Isabelle
  imports Complex_Main "HOL-Library.Word"
begin

section \<open>The snake game of gsnake.go\<close>

subsection \<open>Data model\<close>

text \<open>
  Go's \<^verbatim>\<open>int\<close> on the 64-bit Linux targets the program's ioctl numbers are written for:
  a 64-bit two's complement word. \<open>+\<close>, \<open>-\<close> and unary minus wrap around, the
  comparisons of the source are the signed ones (\<open><=s\<close>, \<open><s\<close>).
\<close>

type_synonym goint = "64 word"

type_synonym rune = "32 word"

record Point =
  x :: goint
  y :: goint

record Snake =
  body :: "Point list"
  direction :: Point

record Game =
  width :: goint
  height :: goint
  snake :: Snake
  food :: Point
  score :: goint
  gameOver :: bool
  quit :: bool

text \<open>
  A call either returns, or panics (the Go runtime stops the process), or is still
  running when the model's supply of random draws or of input is used up.
\<close>

datatype panic = IndexOutOfRange | IntnInvalidArgument | MakeSliceLenOutOfRange

datatype 'a result = Returned 'a | Panicked panic | Pending

subsection \<open>The random source\<close>

text \<open>
  \<^verbatim>\<open>math/rand\<close> is a library outside the repository. Its global generator is taken as a
  parameter: the list of raw values it is going to deliver, one for each call of
  \<^verbatim>\<open>rand.Intn\<close>. \<^verbatim>\<open>rand.Intn(n)\<close> panics for \<open>n \<le> 0\<close> and otherwise returns a value of
  \<open>[0, n)\<close>; a raw value \<open>r\<close> stands for the result \<open>r mod n\<close>, so that every value of
  \<open>[0, n)\<close> can be returned and no other. A list that is used up is a run that has not
  finished yet.
\<close>

type_synonym rng = "nat list"

fun Intn :: "goint \<Rightarrow> rng \<Rightarrow> (goint \<times> rng) result" where
  "Intn n rs =
     (if n <=s 0 then Panicked IntnInvalidArgument
      else case rs of
             [] \<Rightarrow> Pending
           | r # rs' \<Rightarrow> Returned (word_of_nat (r mod unat n), rs'))"

subsection \<open>spawnFood\<close>

text \<open>
  The inner loop of \<^verbatim>\<open>spawnFood\<close>: \<^verbatim>\<open>valid\<close> stays true when no segment of the body has
  the coordinates of the candidate.
\<close>

fun valid :: "Point \<Rightarrow> Point list \<Rightarrow> bool" where
  "valid f [] = True"
| "valid f (segment # segments) =
     (if x segment = x f \<and> y segment = y f then False else valid f segments)"

function spawnFood :: "Game \<Rightarrow> rng \<Rightarrow> (Game \<times> rng) result" where
  "spawnFood g rs =
     (case Intn (width g - 2) rs of
        Panicked p \<Rightarrow> Panicked p
      | Pending \<Rightarrow> Pending
      | Returned (rx, rs1) \<Rightarrow>
          (case Intn (height g - 2) rs1 of
             Panicked p \<Rightarrow> Panicked p
           | Pending \<Rightarrow> Pending
           | Returned (ry, rs2) \<Rightarrow>
               (let g' = g\<lparr>food := \<lparr>x = rx + 1, y = ry + 1\<rparr>\<rparr>
                in if valid (food g') (body (snake g')) then Returned (g', rs2)
                   else spawnFood g' rs2)))"
  by pat_completeness auto
termination
  by (relation "measure (\<lambda>(g, rs). length rs)") (auto split: if_splits list.splits)

subsection \<open>init\<close>

definition init :: "Game \<Rightarrow> rng \<Rightarrow> (Game \<times> rng) result" where
  "init g rs =
     (let g1 = g\<lparr>width := 40\<rparr>;
          g2 = g1\<lparr>height := 20\<rparr>;
          g3 = g2\<lparr>snake := \<lparr>body = [\<lparr>x = 10, y = 10\<rparr>, \<lparr>x = 9, y = 10\<rparr>, \<lparr>x = 8, y = 10\<rparr>],
                               direction = \<lparr>x = 1, y = 0\<rparr>\<rparr>\<rparr>
      in case spawnFood g3 rs of
           Panicked p \<Rightarrow> Panicked p
         | Pending \<Rightarrow> Pending
         | Returned (g4, rs') \<Rightarrow>
             Returned (g4\<lparr>score := 0, gameOver := False, quit := False\<rparr>, rs'))"

subsection \<open>update\<close>

text \<open>
  The self-collision loop of \<^verbatim>\<open>update\<close>: true when it reaches the \<^verbatim>\<open>return\<close> for a
  segment with the coordinates of the new head.
\<close>

fun hitsBody :: "Point \<Rightarrow> Point list \<Rightarrow> bool" where
  "hitsBody newHead [] = False"
| "hitsBody newHead (segment # segments) =
     (if x newHead = x segment \<and> y newHead = y segment then True
      else hitsBody newHead segments)"

definition newHeadOf :: "Game \<Rightarrow> Point \<Rightarrow> Point" where
  "newHeadOf g head =
     \<lparr>x = x head + x (direction (snake g)), y = y head + y (direction (snake g))\<rparr>"

definition touchesBorder :: "Game \<Rightarrow> Point \<Rightarrow> bool" where
  "touchesBorder g newHead \<longleftrightarrow>
     x newHead <=s 0 \<or> width g - 1 <=s x newHead \<or>
     y newHead <=s 0 \<or> height g - 1 <=s y newHead"

definition update :: "Game \<Rightarrow> rng \<Rightarrow> (Game \<times> rng) result" where
  "update g rs =
     (if gameOver g \<or> quit g then Returned (g, rs)
      else case body (snake g) of
             [] \<Rightarrow> Panicked IndexOutOfRange
           | head # _ \<Rightarrow>
               (let newHead = newHeadOf g head
                in if touchesBorder g newHead then Returned (g\<lparr>gameOver := True\<rparr>, rs)
                   else if hitsBody newHead (body (snake g))
                     then Returned (g\<lparr>gameOver := True\<rparr>, rs)
                   else
                     (let g1 = g\<lparr>snake := (snake g)\<lparr>body := newHead # body (snake g)\<rparr>\<rparr>
                      in if x newHead = x (food g1) \<and> y newHead = y (food g1)
                         then spawnFood (g1\<lparr>score := score g1 + 1\<rparr>) rs
                         else Returned
                                (g1\<lparr>snake := (snake g1)\<lparr>body := butlast (body (snake g1))\<rparr>\<rparr>,
                                 rs))))"

subsection \<open>changeDirection\<close>

definition changeDirection :: "Game \<Rightarrow> goint \<Rightarrow> goint \<Rightarrow> Game" where
  "changeDirection g dx dy =
     (if x (direction (snake g)) = - dx \<and> y (direction (snake g)) = - dy then g
      else g\<lparr>snake := (snake g)\<lparr>direction := \<lparr>x = dx, y = dy\<rparr>\<rparr>\<rparr>)"

subsection \<open>render\<close>

text \<open>
  \<^verbatim>\<open>render\<close> builds the grid and writes it to the terminal. The model returns the grid
  that is printed (the rows of runes after the food and the snake are drawn); the clear
  sequence, the status line and the game-over lines are output only and are left out.
  \<^verbatim>\<open>make\<close> panics for a negative length, an index expression panics outside
  \<open>[0, len)\<close>; running out of memory for a huge grid is not modelled.
\<close>

definition borderRune :: rune where "borderRune = 0x2588"
definition spaceRune :: rune where "spaceRune = 0x20"
definition foodRune :: rune where "foodRune = 0x2666"
definition snakeRune :: rune where "snakeRune = 0x25A0"

definition emptyBoard :: "Game \<Rightarrow> rune list list result" where
  "emptyBoard g =
     (if height g <s 0 then Panicked MakeSliceLenOutOfRange
      else if 0 < unat (height g) \<and> width g <s 0 then Panicked MakeSliceLenOutOfRange
      else Returned
        (map (\<lambda>i. map (\<lambda>j.
                 if (word_of_nat i :: goint) = 0 \<or> word_of_nat i = height g - 1 \<or>
                    (word_of_nat j :: goint) = 0 \<or> word_of_nat j = width g - 1
                 then borderRune else spaceRune)
               [0..<unat (width g)])
           [0..<unat (height g)]))"

definition setCell :: "rune list list \<Rightarrow> Point \<Rightarrow> rune \<Rightarrow> rune list list result" where
  "setCell board p r =
     (if y p <s 0 \<or> \<not> unat (y p) < length board then Panicked IndexOutOfRange
      else if x p <s 0 \<or> \<not> unat (x p) < length (board ! unat (y p))
        then Panicked IndexOutOfRange
      else Returned (board[unat (y p) := (board ! unat (y p))[unat (x p) := r]]))"

fun drawSnake :: "rune list list \<Rightarrow> Point list \<Rightarrow> rune list list result" where
  "drawSnake board [] = Returned board"
| "drawSnake board (segment # segments) =
     (case setCell board segment snakeRune of
        Panicked p \<Rightarrow> Panicked p
      | Pending \<Rightarrow> Pending
      | Returned board' \<Rightarrow> drawSnake board' segments)"

definition render :: "Game \<Rightarrow> rune list list result" where
  "render g =
     (case emptyBoard g of
        Panicked p \<Rightarrow> Panicked p
      | Pending \<Rightarrow> Pending
      | Returned board \<Rightarrow>
          (case setCell board (food g) foodRune of
             Panicked p \<Rightarrow> Panicked p
           | Pending \<Rightarrow> Pending
           | Returned board' \<Rightarrow> drawSnake board' (body (snake g))))"

subsection \<open>handleInput\<close>

text \<open>
  Standard input is taken as the list of what the successive calls of
  \<^verbatim>\<open>os.Stdin.Read\<close> deliver: the bytes written to the buffer (never more than the buffer
  holds) and whether the call reports an error. When the list is used up the handler is
  blocked in a read.
\<close>

datatype read = Read "8 word list" bool

datatype flow = Continue | Return

definition handleInput_body ::
  "Game \<Rightarrow> read list \<Rightarrow> rng \<Rightarrow> (flow \<times> Game \<times> read list \<times> rng) result" where
  "handleInput_body g ins rs =
     (case ins of
        [] \<Rightarrow> Pending
      | Read bs err # ins1 \<Rightarrow>
          (case take 1 bs of
             [] \<Rightarrow> Returned (Continue, g, ins1, rs)
           | key # _ \<Rightarrow>
               if err then Returned (Continue, g, ins1, rs)
               else if key = 27 then
                 (case ins1 of
                    [] \<Rightarrow> Pending
                  | Read bs2 err2 # ins2 \<Rightarrow>
                      (let seq = take 2 (bs2 @ [0, 0])
                       in if seq ! 0 = 91 then
                            (if seq ! 1 = 65 then Returned (Continue, changeDirection g 0 (- 1), ins2, rs)
                             else if seq ! 1 = 66 then Returned (Continue, changeDirection g 0 1, ins2, rs)
                             else if seq ! 1 = 67 then Returned (Continue, changeDirection g 1 0, ins2, rs)
                             else if seq ! 1 = 68 then Returned (Continue, changeDirection g (- 1) 0, ins2, rs)
                             else Returned (Continue, g, ins2, rs))
                          else Returned (Continue, g, ins2, rs)))
               else if key = 113 \<or> key = 81 then Returned (Return, g\<lparr>quit := True\<rparr>, ins1, rs)
               else if key = 114 \<or> key = 82 then
                 (if gameOver g then
                    (case init g rs of
                       Panicked p \<Rightarrow> Panicked p
                     | Pending \<Rightarrow> Pending
                     | Returned (g', rs') \<Rightarrow> Returned (Continue, g', ins1, rs'))
                  else Returned (Continue, g, ins1, rs))
               else Returned (Continue, g, ins1, rs)))"

function handleInput :: "Game \<Rightarrow> read list \<Rightarrow> rng \<Rightarrow> (Game \<times> read list \<times> rng) result" where
  "handleInput g ins rs =
     (if quit g then Returned (g, ins, rs)
      else case handleInput_body g ins rs of
             Panicked p \<Rightarrow> Panicked p
           | Pending \<Rightarrow> Pending
           | Returned (Return, g', ins', rs') \<Rightarrow> Returned (g', ins', rs')
           | Returned (Continue, g', ins', rs') \<Rightarrow> handleInput g' ins' rs')"
  by pat_completeness auto
termination
  by (relation "measure (\<lambda>(g, ins, rs). length ins)")
    (auto simp: handleInput_body_def Let_def
          split: if_splits list.splits read.splits result.splits prod.splits)

subsection \<open>Reachable states\<close>

text \<open>
  The states the program can be in between calls: \<^verbatim>\<open>init\<close> on any state (the zero
  value at start, the state at a restart), then any sequence of \<^verbatim>\<open>update\<close>,
  \<^verbatim>\<open>changeDirection\<close> and \<^verbatim>\<open>spawnFood\<close> calls that return, each with any random
  draws.
\<close>

inductive reachable :: "Game \<Rightarrow> bool" where
  reach_init: "init g0 rs = Returned (g, rs') \<Longrightarrow> reachable g"
| reach_update: "reachable g \<Longrightarrow> update g rs = Returned (g', rs') \<Longrightarrow> reachable g'"
| reach_changeDirection: "reachable g \<Longrightarrow> reachable (changeDirection g dx dy)"
| reach_spawnFood: "reachable g \<Longrightarrow> spawnFood g rs = Returned (g', rs') \<Longrightarrow> reachable g'"

subsection \<open>Example states\<close>

text \<open>The zero value \<^verbatim>\<open>Game{}\<close> that \<^verbatim>\<open>main\<close> passes to \<^verbatim>\<open>init\<close>.\<close>

definition zeroGame :: Game where
  "zeroGame = \<lparr>width = 0, height = 0, snake = \<lparr>body = [], direction = \<lparr>x = 0, y = 0\<rparr>\<rparr>,
                food = \<lparr>x = 0, y = 0\<rparr>, score = 0, gameOver = False, quit = False\<rparr>"

text \<open>A live game on the 40 by 20 board with the given body, direction and food.\<close>

definition liveGame :: "Point list \<Rightarrow> Point \<Rightarrow> Point \<Rightarrow> Game" where
  "liveGame segments d f =
     \<lparr>width = 40, height = 20, snake = \<lparr>body = segments, direction = d\<rparr>,
      food = f, score = 0, gameOver = False, quit = False\<rparr>"

definition pt :: "goint \<Rightarrow> goint \<Rightarrow> Point" where
  "pt a b = \<lparr>x = a, y = b\<rparr>"

subsection \<open>The invariant of the reachable states\<close>

text \<open>A cell strictly inside the one-cell border of the board of \<open>g\<close>.\<close>

definition interior :: "Game \<Rightarrow> Point \<Rightarrow> bool" where
  "interior g p \<longleftrightarrow>
     1 <=s x p \<and> x p <=s width g - 2 \<and> 1 <=s y p \<and> y p <=s height g - 2"

definition boardInv :: "Game \<Rightarrow> bool" where
  "boardInv g \<longleftrightarrow>
     width g = 40 \<and> height g = 20 \<and> 3 \<le> length (body (snake g)) \<and>
     list_all (interior g) (body (snake g)) \<and> interior g (food g)"

text \<open>A grid of \<open>h\<close> rows of \<open>w\<close> cells each.\<close>

definition dims :: "nat \<Rightarrow> nat \<Rightarrow> rune list list \<Rightarrow> bool" where
  "dims h w board \<longleftrightarrow> length board = h \<and> list_all (\<lambda>row. length row = w) board"

declare spawnFood.simps [simp del]
declare handleInput.simps [simp del]

section \<open>Properties\<close>

subsection \<open>Auxiliary facts\<close>

lemma hitsBody_iff: "hitsBody p segments \<longleftrightarrow> p \<in> set segments"
  by (induction segments) auto

lemma valid_iff: "valid f segments \<longleftrightarrow> f \<notin> set segments"
  by (induction segments) auto

lemma Point_eq_iff: "p = q \<longleftrightarrow> x p = x q \<and> y p = y q" for p q :: Point
  by auto

lemma sint_of_nat_small:
  assumes "k < 2 ^ 63"
  shows "sint (word_of_nat k :: goint) = int k"
proof -
  have "int k < 2 ^ 63" using assms by (metis of_nat_less_iff of_nat_numeral of_nat_power)
  moreover have "- (2 ^ 63) \<le> int k" by simp
  ultimately have "signed_take_bit 63 (int k) = int k"
    by (rule signed_take_bit_int_eq_self [rotated])
  then show ?thesis by (simp add: signed_of_nat)
qed

lemma unat_nonneg:
  assumes "0 <=s (n :: goint)"
  shows "int (unat n) = sint n" and "unat n < 2 ^ 63"
proof -
  have nn: "0 \<le> sint n" using assms by (simp add: word_sle_eq)
  have lt: "sint n < 2 ^ 63" using sint_lt [of n] by simp
  have "take_bit 64 (sint n) = sint n"
    using nn lt by (simp add: take_bit_int_eq_self)
  then have "uint n = sint n" using uint_sint [of n] by simp
  then show "int (unat n) = sint n" by simp
  with lt have "int (unat n) < 2 ^ 63" by simp
  then show "unat n < 2 ^ 63" by (metis of_nat_less_iff of_nat_numeral of_nat_power)
qed

text \<open>A result of \<^verbatim>\<open>rand.Intn(n)\<close>, plus one, lies in \<open>[1, n]\<close>, without wrap-around.\<close>

lemma Intn_range:
  assumes "Intn n rs = Returned (v, rs')"
  shows "1 <=s v + 1" and "v + 1 <=s n"
proof -
  from assms have pos: "\<not> n <=s 0" by (auto split: if_splits)
  from assms pos obtain r where v: "v = word_of_nat (r mod unat n)"
    by (auto split: list.splits)
  from pos have "0 <=s n" and "n \<noteq> 0" by (auto simp: word_sle_eq)
  then have n: "int (unat n) = sint n" "unat n < 2 ^ 63" and n0: "0 < unat n"
    using unat_nonneg [of n] by (auto simp: unat_gt_0)
  let ?k = "r mod unat n"
  have k: "Suc ?k \<le> unat n" using n0 by (simp add: Suc_leI)
  have "v + 1 = word_of_nat (Suc ?k)" by (simp add: v)
  moreover have "Suc ?k < 2 ^ 63" using k n(2) by simp
  ultimately have s: "sint (v + 1) = int (Suc ?k)" by (simp only: sint_of_nat_small)
  show "1 <=s v + 1" by (simp add: word_sle_eq s)
  have "int (Suc ?k) \<le> sint n" using k n(1) by linarith
  then show "v + 1 <=s n" by (simp only: word_sle_eq s)
qed

text \<open>
  What a returning \<^verbatim>\<open>spawnFood\<close> has done: only the food has changed, to a cell that
  passed the validity loop and came from the two \<^verbatim>\<open>rand.Intn\<close> calls.
\<close>

lemma spawnFood_Returned:
  "spawnFood g rs = Returned (g', rs') \<Longrightarrow>
     \<exists>f. g' = g\<lparr>food := f\<rparr> \<and> valid f (body (snake g)) \<and>
         1 <=s x f \<and> x f <=s width g - 2 \<and> 1 <=s y f \<and> y f <=s height g - 2"
proof (induction g rs rule: spawnFood.induct)
  case (1 g rs)
  show ?case
  proof (cases "Intn (width g - 2) rs")
    case (Returned a)
    obtain rx rs1 where a: "a = (rx, rs1)" by (cases a)
    show ?thesis
    proof (cases "Intn (height g - 2) rs1")
      case R2: (Returned b)
      obtain ry rs2 where b: "b = (ry, rs2)" by (cases b)
      define g1 where "g1 = g\<lparr>food := \<lparr>x = rx + 1, y = ry + 1\<rparr>\<rparr>"
      have range: "1 <=s rx + 1" "rx + 1 <=s width g - 2" "1 <=s ry + 1" "ry + 1 <=s height g - 2"
        using Intn_range [of "width g - 2" rs rx rs1] Intn_range [of "height g - 2" rs1 ry rs2]
          Returned a R2 b by simp_all
      show ?thesis
      proof (cases "valid (food g1) (body (snake g1))")
        case True
        with "1.prems" Returned a R2 b have "g' = g1"
          by (simp add: spawnFood.simps [of g rs] g1_def Let_def)
        with True range show ?thesis by (auto simp: g1_def)
      next
        case False
        with "1.prems" Returned a R2 b have "spawnFood g1 rs2 = Returned (g', rs')"
          by (simp add: spawnFood.simps [of g rs] g1_def Let_def)
        with "1.IH" [OF Returned a [symmetric] R2 b [symmetric] g1_def] False
        obtain f where "g' = g1\<lparr>food := f\<rparr>" "valid f (body (snake g1))"
          "1 <=s x f" "x f <=s width g1 - 2" "1 <=s y f" "y f <=s height g1 - 2"
          by (auto simp: g1_def)
        then show ?thesis by (auto simp: g1_def)
      qed
    next
      case (Panicked p)
      with "1.prems" Returned a show ?thesis by (simp add: spawnFood.simps [of g rs])
    next
      case Pending
      with "1.prems" Returned a show ?thesis by (simp add: spawnFood.simps [of g rs])
    qed
  next
    case (Panicked p)
    with "1.prems" show ?thesis by (simp add: spawnFood.simps [of g rs])
  next
    case Pending
    with "1.prems" show ?thesis by (simp add: spawnFood.simps [of g rs])
  qed
qed

subsection \<open>changeDirection\<close>

text \<open>
  C4. \<^verbatim>\<open>changeDirection(dx, dy)\<close> leaves the state as it is when the current direction
  equals \<open>(-dx, -dy)\<close>, and otherwise replaces the direction by \<open>(dx, dy)\<close>, changing
  nothing else; asking for the exact reverse of the current direction never changes the
  direction.
\<close>

theorem changeDirection_rule:
  "(x (direction (snake g)) = - dx \<and> y (direction (snake g)) = - dy \<longrightarrow>
      changeDirection g dx dy = g) \<and>
   (\<not> (x (direction (snake g)) = - dx \<and> y (direction (snake g)) = - dy) \<longrightarrow>
      changeDirection g dx dy = g\<lparr>snake := (snake g)\<lparr>direction := \<lparr>x = dx, y = dy\<rparr>\<rparr>\<rparr>) \<and>
   direction (snake (changeDirection g (- x (direction (snake g))) (- y (direction (snake g)))))
     = direction (snake g)"
  by (simp add: changeDirection_def)

theorem changeDirection_rule_witness:
  "changeDirection (liveGame [pt 10 10, pt 9 10, pt 8 10] (pt 1 0) (pt 3 3)) (- 1) 0
     = liveGame [pt 10 10, pt 9 10, pt 8 10] (pt 1 0) (pt 3 3) \<and>
   changeDirection (liveGame [pt 10 10, pt 9 10, pt 8 10] (pt 1 0) (pt 3 3)) 0 (- 1)
     = liveGame [pt 10 10, pt 9 10, pt 8 10] (pt 0 (- 1)) (pt 3 3)"
  using changeDirection_rule [of "liveGame [pt 10 10, pt 9 10, pt 8 10] (pt 1 0) (pt 3 3)" "- 1" 0]
    changeDirection_rule [of "liveGame [pt 10 10, pt 9 10, pt 8 10] (pt 1 0) (pt 3 3)" 0 "- 1"]
  by (simp add: liveGame_def pt_def)

subsection \<open>update\<close>

text \<open>
  C8. With \<^verbatim>\<open>gameOver\<close> or \<^verbatim>\<open>quit\<close> set, \<^verbatim>\<open>update\<close> returns the state it was given:
  every field is as before, and no random draw is used.
\<close>

theorem update_noop:
  "gameOver g \<or> quit g \<Longrightarrow> update g rs = Returned (g, rs)"
  by (simp add: update_def)

theorem update_noop_witness:
  "quit (zeroGame\<lparr>quit := True\<rparr>) \<and>
   update (zeroGame\<lparr>quit := True\<rparr>) [7] = Returned (zeroGame\<lparr>quit := True\<rparr>, [7]) \<and>
   gameOver (liveGame [pt 1 1] (pt 1 0) (pt 3 3)\<lparr>gameOver := True\<rparr>) \<and>
   update (liveGame [pt 1 1] (pt 1 0) (pt 3 3)\<lparr>gameOver := True\<rparr>) []
     = Returned (liveGame [pt 1 1] (pt 1 0) (pt 3 3)\<lparr>gameOver := True\<rparr>, [])"
  using update_noop [of "zeroGame\<lparr>quit := True\<rparr>" "[7]"]
    update_noop [of "liveGame [pt 1 1] (pt 1 0) (pt 3 3)\<lparr>gameOver := True\<rparr>" "[]"]
  by (simp add: zeroGame_def liveGame_def)

text \<open>
  C3. In a live state, when the new head (head plus direction) has \<open>x \<le> 0\<close>,
  \<open>x \<ge> width - 1\<close>, \<open>y \<le> 0\<close> or \<open>y \<ge> height - 1\<close>, the same call of \<^verbatim>\<open>update\<close> sets
  \<^verbatim>\<open>gameOver\<close> and changes nothing else: body, food and score are as before.
\<close>

theorem update_border:
  assumes "\<not> gameOver g" and "\<not> quit g" and "body (snake g) = head # rest"
    and "x (newHeadOf g head) <=s 0 \<or> width g - 1 <=s x (newHeadOf g head) \<or>
         y (newHeadOf g head) <=s 0 \<or> height g - 1 <=s y (newHeadOf g head)"
  shows "update g rs = Returned (g\<lparr>gameOver := True\<rparr>, rs)"
  using assms by (simp add: update_def touchesBorder_def)

theorem update_border_witness:
  "newHeadOf (liveGame [pt 38 5, pt 37 5, pt 36 5] (pt 1 0) (pt 3 3)) (pt 38 5) = pt 39 5 \<and>
   update (liveGame [pt 38 5, pt 37 5, pt 36 5] (pt 1 0) (pt 3 3)) []
     = Returned (liveGame [pt 38 5, pt 37 5, pt 36 5] (pt 1 0) (pt 3 3)\<lparr>gameOver := True\<rparr>, [])"
  using update_border [of "liveGame [pt 38 5, pt 37 5, pt 36 5] (pt 1 0) (pt 3 3)"
      "pt 38 5" "[pt 37 5, pt 36 5]" "[]"]
  by (simp add: liveGame_def pt_def newHeadOf_def word_sle_eq)

text \<open>
  C2. In a live state with the new head strictly inside the border, the self-collision
  check runs over the body as it is before the move, the tail segment included: when the
  new head is any segment of that body, \<^verbatim>\<open>update\<close> sets \<^verbatim>\<open>gameOver\<close> and leaves body,
  food and score as they were. The witness moves the head onto the tail.
\<close>

theorem update_self_collision:
  assumes "\<not> gameOver g" and "\<not> quit g" and "body (snake g) = head # rest"
    and "0 <s x (newHeadOf g head)" and "x (newHeadOf g head) <s width g - 1"
    and "0 <s y (newHeadOf g head)" and "y (newHeadOf g head) <s height g - 1"
    and "newHeadOf g head \<in> set (body (snake g))"
  shows "update g rs = Returned (g\<lparr>gameOver := True\<rparr>, rs)"
proof -
  have "hitsBody (newHeadOf g head) (head # rest)"
    using assms(3,8) by (simp add: hitsBody_iff del: hitsBody.simps)
  with assms(1-3) show ?thesis
    by (simp add: update_def Let_def)
qed

theorem update_self_collision_witness:
  "newHeadOf (liveGame [pt 5 5, pt 5 6, pt 6 6, pt 6 5] (pt 1 0) (pt 3 3)) (pt 5 5)
     = last [pt 5 5, pt 5 6, pt 6 6, pt 6 5] \<and>
   update (liveGame [pt 5 5, pt 5 6, pt 6 6, pt 6 5] (pt 1 0) (pt 3 3)) []
     = Returned (liveGame [pt 5 5, pt 5 6, pt 6 6, pt 6 5] (pt 1 0) (pt 3 3)\<lparr>gameOver := True\<rparr>, [])"
  using update_self_collision [of "liveGame [pt 5 5, pt 5 6, pt 6 6, pt 6 5] (pt 1 0) (pt 3 3)"
      "pt 5 5" "[pt 5 6, pt 6 6, pt 6 5]" "[]"]
  by (simp add: liveGame_def pt_def newHeadOf_def word_sless_alt)

text \<open>
  C1. In a live state whose new head neither touches the border nor is a segment of the
  body before the move: when the new head is the food, every returning \<^verbatim>\<open>update\<close> has
  prepended the new head and kept the tail, so the body is one longer, and the score is one
  higher (Go's \<^verbatim>\<open>+= 1\<close>); otherwise \<^verbatim>\<open>update\<close> returns with the new head prepended and the
  last segment removed, the length unchanged.
\<close>

theorem update_move:
  assumes "\<not> gameOver g" and "\<not> quit g" and "body (snake g) = head # rest"
    and "0 <s x (newHeadOf g head)" and "x (newHeadOf g head) <s width g - 1"
    and "0 <s y (newHeadOf g head)" and "y (newHeadOf g head) <s height g - 1"
    and "newHeadOf g head \<notin> set (body (snake g))"
  shows "(newHeadOf g head = food g \<longrightarrow>
            (\<forall>g' rs'. update g rs = Returned (g', rs') \<longrightarrow>
               body (snake g') = newHeadOf g head # body (snake g) \<and>
               length (body (snake g')) = length (body (snake g)) + 1 \<and>
               score g' = score g + 1)) \<and>
         (newHeadOf g head \<noteq> food g \<longrightarrow>
            update g rs =
              Returned (g\<lparr>snake := (snake g)\<lparr>body := newHeadOf g head # butlast (body (snake g))\<rparr>\<rparr>, rs) \<and>
            length (newHeadOf g head # butlast (body (snake g))) = length (body (snake g)))"
proof -
  let ?nh = "newHeadOf g head"
  have nb: "\<not> touchesBorder g ?nh"
    using assms(4-7) by (simp add: touchesBorder_def signed.not_le)
  have nh: "\<not> hitsBody ?nh (head # rest)"
    using assms(3,8) by (simp add: hitsBody_iff del: hitsBody.simps)
  let ?g1 = "g\<lparr>snake := (snake g)\<lparr>body := ?nh # body (snake g)\<rparr>\<rparr>"
  have eat: "update g rs = spawnFood (?g1\<lparr>score := score g + 1\<rparr>) rs"
    if "?nh = food g"
    using that assms(1-3) nb nh by (simp add: update_def Let_def)
  have move: "update g rs = Returned (g\<lparr>snake := (snake g)\<lparr>body := ?nh # butlast (body (snake g))\<rparr>\<rparr>, rs)"
    if "?nh \<noteq> food g"
  proof -
    from that have ne: "(x ?nh = x (food g) \<and> y ?nh = y (food g)) = False"
      by (simp add: Point_eq_iff)
    from assms(1-3) nb nh show ?thesis
      by (simp add: update_def Let_def ne)
  qed
  show ?thesis
  proof (intro conjI impI allI)
    fix g' rs'
    assume "?nh = food g" and "update g rs = Returned (g', rs')"
    then have "spawnFood (?g1\<lparr>score := score g + 1\<rparr>) rs = Returned (g', rs')"
      by (simp add: eat)
    then obtain f where g': "g' = ?g1\<lparr>score := score g + 1, food := f\<rparr>"
      using spawnFood_Returned by blast
    show "body (snake g') = ?nh # body (snake g)" by (simp add: g')
    show "length (body (snake g')) = length (body (snake g)) + 1" by (simp add: g')
    show "score g' = score g + 1" by (simp add: g')
  next
    assume "?nh \<noteq> food g"
    then show "update g rs =
              Returned (g\<lparr>snake := (snake g)\<lparr>body := ?nh # butlast (body (snake g))\<rparr>\<rparr>, rs)"
      by (rule move)
  next
    show "length (?nh # butlast (body (snake g))) = length (body (snake g))"
      using assms(3) by simp
  qed
qed

theorem update_move_witness:
  "newHeadOf (liveGame [pt 10 10, pt 9 10, pt 8 10] (pt 1 0) (pt 11 10)) (pt 10 10)
     = food (liveGame [pt 10 10, pt 9 10, pt 8 10] (pt 1 0) (pt 11 10)) \<and>
   update (liveGame [pt 10 10, pt 9 10, pt 8 10] (pt 1 0) (pt 11 10)) [4, 6]
     = Returned (liveGame [pt 11 10, pt 10 10, pt 9 10, pt 8 10] (pt 1 0) (pt 5 7)\<lparr>score := 1\<rparr>, []) \<and>
   length (body (snake (liveGame [pt 11 10, pt 10 10, pt 9 10, pt 8 10] (pt 1 0) (pt 5 7)\<lparr>score := 1\<rparr>)))
     = length (body (snake (liveGame [pt 10 10, pt 9 10, pt 8 10] (pt 1 0) (pt 11 10)))) + 1 \<and>
   score (liveGame [pt 11 10, pt 10 10, pt 9 10, pt 8 10] (pt 1 0) (pt 5 7)\<lparr>score := 1\<rparr>)
     = score (liveGame [pt 10 10, pt 9 10, pt 8 10] (pt 1 0) (pt 11 10)) + 1 \<and>
   newHeadOf (liveGame [pt 10 10, pt 9 10, pt 8 10] (pt 1 0) (pt 3 3)) (pt 10 10)
     \<noteq> food (liveGame [pt 10 10, pt 9 10, pt 8 10] (pt 1 0) (pt 3 3)) \<and>
   update (liveGame [pt 10 10, pt 9 10, pt 8 10] (pt 1 0) (pt 3 3)) [4, 6]
     = Returned (liveGame [pt 10 10, pt 9 10, pt 8 10] (pt 1 0) (pt 3 3)
         \<lparr>snake := (snake (liveGame [pt 10 10, pt 9 10, pt 8 10] (pt 1 0) (pt 3 3)))
            \<lparr>body := newHeadOf (liveGame [pt 10 10, pt 9 10, pt 8 10] (pt 1 0) (pt 3 3)) (pt 10 10)
               # butlast (body (snake (liveGame [pt 10 10, pt 9 10, pt 8 10] (pt 1 0) (pt 3 3))))\<rparr>\<rparr>,
         [4, 6])"
proof -
  let ?g = "liveGame [pt 10 10, pt 9 10, pt 8 10] (pt 1 0) (pt 11 10)"
  let ?g' = "liveGame [pt 11 10, pt 10 10, pt 9 10, pt 8 10] (pt 1 0) (pt 5 7)\<lparr>score := 1\<rparr>"
  let ?h = "liveGame [pt 10 10, pt 9 10, pt 8 10] (pt 1 0) (pt 3 3)"
  have run: "update ?g [4, 6] = Returned (?g', [])"
    by code_simp
  have g: "\<not> gameOver ?g" "\<not> quit ?g" "body (snake ?g) = pt 10 10 # [pt 9 10, pt 8 10]"
    "0 <s x (newHeadOf ?g (pt 10 10))" "x (newHeadOf ?g (pt 10 10)) <s width ?g - 1"
    "0 <s y (newHeadOf ?g (pt 10 10))" "y (newHeadOf ?g (pt 10 10)) <s height ?g - 1"
    "newHeadOf ?g (pt 10 10) \<notin> set (body (snake ?g))"
    by (simp_all add: liveGame_def pt_def newHeadOf_def word_sless_alt)
  have h: "\<not> gameOver ?h" "\<not> quit ?h" "body (snake ?h) = pt 10 10 # [pt 9 10, pt 8 10]"
    "0 <s x (newHeadOf ?h (pt 10 10))" "x (newHeadOf ?h (pt 10 10)) <s width ?h - 1"
    "0 <s y (newHeadOf ?h (pt 10 10))" "y (newHeadOf ?h (pt 10 10)) <s height ?h - 1"
    "newHeadOf ?h (pt 10 10) \<notin> set (body (snake ?h))"
    by (simp_all add: liveGame_def pt_def newHeadOf_def word_sless_alt)
  have eats: "newHeadOf ?g (pt 10 10) = food ?g"
    by (simp add: liveGame_def pt_def newHeadOf_def)
  have moves: "newHeadOf ?h (pt 10 10) \<noteq> food ?h"
    by (simp add: liveGame_def pt_def newHeadOf_def)
  from update_move [OF g, of "[4, 6]"] eats run
  have grown: "length (body (snake ?g')) = length (body (snake ?g)) + 1 \<and> score ?g' = score ?g + 1"
    by blast
  from update_move [OF h, of "[4, 6]"] moves
  have moved: "update ?h [4, 6] =
      Returned (?h\<lparr>snake := (snake ?h)\<lparr>body := newHeadOf ?h (pt 10 10) # butlast (body (snake ?h))\<rparr>\<rparr>, [4, 6])"
    by blast
  from eats run grown moves moved show ?thesis by blast
qed

subsection \<open>spawnFood\<close>

text \<open>
  C6. Whenever \<^verbatim>\<open>spawnFood\<close> returns, the food is on no segment of the snake's body (which
  the call does not change) and is an interior cell: \<open>1 \<le> x \<le> width - 2\<close> and
  \<open>1 \<le> y \<le> height - 2\<close>.
\<close>

theorem spawnFood_food:
  assumes "spawnFood g rs = Returned (g', rs')"
  shows "food g' \<notin> set (body (snake g')) \<and> snake g' = snake g \<and>
         1 <=s x (food g') \<and> x (food g') <=s width g' - 2 \<and>
         1 <=s y (food g') \<and> y (food g') <=s height g' - 2"
proof -
  from spawnFood_Returned [OF assms] obtain f where
    "g' = g\<lparr>food := f\<rparr>" "valid f (body (snake g))"
    "1 <=s x f" "x f <=s width g - 2" "1 <=s y f" "y f <=s height g - 2"
    by blast
  then show ?thesis by (simp add: valid_iff)
qed

theorem spawnFood_food_witness:
  "spawnFood (liveGame [pt 10 10, pt 9 10, pt 8 10] (pt 1 0) (pt 0 0)) [9, 9, 4, 6]
     = Returned (liveGame [pt 10 10, pt 9 10, pt 8 10] (pt 1 0) (pt 5 7), []) \<and>
   food (liveGame [pt 10 10, pt 9 10, pt 8 10] (pt 1 0) (pt 5 7))
     \<notin> set (body (snake (liveGame [pt 10 10, pt 9 10, pt 8 10] (pt 1 0) (pt 5 7))))"
proof -
  have run: "spawnFood (liveGame [pt 10 10, pt 9 10, pt 8 10] (pt 1 0) (pt 0 0)) [9, 9, 4, 6]
     = Returned (liveGame [pt 10 10, pt 9 10, pt 8 10] (pt 1 0) (pt 5 7), [])"
    by code_simp
  from spawnFood_food [OF run]
  have "food (liveGame [pt 10 10, pt 9 10, pt 8 10] (pt 1 0) (pt 5 7))
     \<notin> set (body (snake (liveGame [pt 10 10, pt 9 10, pt 8 10] (pt 1 0) (pt 5 7))))"
    by (rule conjunct1)
  with run show ?thesis by (rule conjI)
qed

subsection \<open>Restart\<close>

lemma init_Returned:
  assumes "init g0 rs = Returned (g, rs')"
  shows "\<exists>f. g = g0\<lparr>width := 40, height := 20,
               snake := \<lparr>body = [\<lparr>x = 10, y = 10\<rparr>, \<lparr>x = 9, y = 10\<rparr>, \<lparr>x = 8, y = 10\<rparr>],
                          direction = \<lparr>x = 1, y = 0\<rparr>\<rparr>,
               food := f, score := 0, gameOver := False, quit := False\<rparr> \<and>
             1 <=s x f \<and> x f <=s 38 \<and> 1 <=s y f \<and> y f <=s 18"
proof -
  let ?g3 = "g0\<lparr>width := 40, height := 20,
               snake := \<lparr>body = [\<lparr>x = 10, y = 10\<rparr>, \<lparr>x = 9, y = 10\<rparr>, \<lparr>x = 8, y = 10\<rparr>],
                          direction = \<lparr>x = 1, y = 0\<rparr>\<rparr>\<rparr>"
  from assms obtain g4 where sp: "spawnFood ?g3 rs = Returned (g4, rs')"
    and g: "g = g4\<lparr>score := 0, gameOver := False, quit := False\<rparr>"
    by (auto simp: init_def Let_def split: result.splits)
  from spawnFood_Returned [OF sp] obtain f where f: "g4 = ?g3\<lparr>food := f\<rparr>"
    "1 <=s x f" "x f <=s width ?g3 - 2" "1 <=s y f" "y f <=s height ?g3 - 2"
    by blast
  from f(3,5) have "x f <=s 38" "y f <=s 18" by simp_all
  with f(1,2,4) g show ?thesis by auto
qed

text \<open>
  C9. One round of the input loop that reads the byte \<open>r\<close> (114) or \<open>R\<close> (82): with
  \<^verbatim>\<open>gameOver\<close> set it calls \<^verbatim>\<open>init\<close>, and whenever that returns the score is 0,
  \<^verbatim>\<open>gameOver\<close> is false and the snake is the initial one, body
  \<open>[(10,10), (9,10), (8,10)]\<close> with direction \<open>(1,0)\<close>; with \<^verbatim>\<open>gameOver\<close> not set the round
  leaves the state and the random source as they are.
\<close>

theorem handleInput_restart:
  assumes "key = 114 \<or> key = 82"
  shows "(gameOver g \<longrightarrow>
            (\<forall>fl g' ins' rs'.
               handleInput_body g (Read (key # bs) False # ins) rs = Returned (fl, g', ins', rs') \<longrightarrow>
               score g' = 0 \<and> \<not> gameOver g' \<and>
               snake g' = \<lparr>body = [\<lparr>x = 10, y = 10\<rparr>, \<lparr>x = 9, y = 10\<rparr>, \<lparr>x = 8, y = 10\<rparr>],
                           direction = \<lparr>x = 1, y = 0\<rparr>\<rparr>)) \<and>
         (\<not> gameOver g \<longrightarrow>
            handleInput_body g (Read (key # bs) False # ins) rs = Returned (Continue, g, ins, rs))"
proof -
  from assms have k: "key \<noteq> 27" "key \<noteq> 113" "key \<noteq> 81" by auto
  have restart: "score g' = 0 \<and> \<not> gameOver g' \<and>
        snake g' = \<lparr>body = [\<lparr>x = 10, y = 10\<rparr>, \<lparr>x = 9, y = 10\<rparr>, \<lparr>x = 8, y = 10\<rparr>],
                    direction = \<lparr>x = 1, y = 0\<rparr>\<rparr>"
    if over: "gameOver g"
      and ret: "handleInput_body g (Read (key # bs) False # ins) rs = Returned (fl, g', ins', rs')"
    for fl g' ins' rs'
  proof -
    from ret over assms k have "init g rs = Returned (g', rs')"
      by (auto simp: handleInput_body_def split: result.splits)
    from init_Returned [OF this] show ?thesis by auto
  qed
  have ignored: "handleInput_body g (Read (key # bs) False # ins) rs = Returned (Continue, g, ins, rs)"
    if "\<not> gameOver g"
    using that assms k by (auto simp: handleInput_body_def)
  from restart ignored show ?thesis by blast
qed

theorem handleInput_restart_witness:
  "gameOver (liveGame [pt 38 5, pt 37 5, pt 36 5, pt 35 5] (pt 1 0) (pt 3 3)\<lparr>score := 1, gameOver := True\<rparr>) \<and>
   handleInput_body (liveGame [pt 38 5, pt 37 5, pt 36 5, pt 35 5] (pt 1 0) (pt 3 3)\<lparr>score := 1, gameOver := True\<rparr>)
       [Read [114] False] [4, 6]
     = Returned (Continue, liveGame [pt 10 10, pt 9 10, pt 8 10] (pt 1 0) (pt 5 7), [], []) \<and>
   score (liveGame [pt 10 10, pt 9 10, pt 8 10] (pt 1 0) (pt 5 7)) = 0 \<and>
   \<not> gameOver (liveGame [pt 38 5, pt 37 5, pt 36 5, pt 35 5] (pt 0 1) (pt 3 3)) \<and>
   handleInput_body (liveGame [pt 38 5, pt 37 5, pt 36 5, pt 35 5] (pt 0 1) (pt 3 3))
       [Read [82] False] [4, 6]
     = Returned (Continue, liveGame [pt 38 5, pt 37 5, pt 36 5, pt 35 5] (pt 0 1) (pt 3 3), [], [4, 6])"
proof -
  let ?g = "liveGame [pt 38 5, pt 37 5, pt 36 5, pt 35 5] (pt 1 0) (pt 3 3)\<lparr>score := 1, gameOver := True\<rparr>"
  let ?g' = "liveGame [pt 10 10, pt 9 10, pt 8 10] (pt 1 0) (pt 5 7)"
  let ?h = "liveGame [pt 38 5, pt 37 5, pt 36 5, pt 35 5] (pt 0 1) (pt 3 3)"
  have over: "gameOver ?g" and live: "\<not> gameOver ?h"
    by (simp_all add: liveGame_def)
  have run: "handleInput_body ?g [Read [114] False] [4, 6] = Returned (Continue, ?g', [], [])"
    by code_simp
  have r: "(114 :: 8 word) = 114 \<or> (114 :: 8 word) = 82"
    and R: "(82 :: 8 word) = 114 \<or> (82 :: 8 word) = 82"
    by simp_all
  from handleInput_restart [OF r, of ?g "[]" "[]" "[4, 6]"] over run
  have reset: "score ?g' = 0" by blast
  from handleInput_restart [OF R, of ?h "[]" "[]" "[4, 6]"] live
  have same: "handleInput_body ?h [Read [82] False] [4, 6] = Returned (Continue, ?h, [], [4, 6])"
    by blast
  from over run reset live same show ?thesis by blast
qed

subsection \<open>Two turns between two ticks\<close>

text \<open>
  C5. The state after \<^verbatim>\<open>init\<close> (food drawn at \<open>(5,7)\<close>) and one \<^verbatim>\<open>update\<close>, which moved
  the head with direction \<open>(1,0)\<close>, then the arrow keys up and left before the next tick:
  \<^verbatim>\<open>changeDirection(0,-1)\<close> is accepted, and \<^verbatim>\<open>changeDirection(-1,0)\<close> is accepted as
  well, because it is compared with \<open>(0,-1)\<close> and not with the direction of the last
  tick. The next \<^verbatim>\<open>update\<close> runs with \<open>(-1,0)\<close>, the exact reverse of the direction of the
  tick before; its new head is the segment behind the head and the game is over.
\<close>

theorem double_turn_reverses:
  "init zeroGame [4, 6] = Returned (liveGame [pt 10 10, pt 9 10, pt 8 10] (pt 1 0) (pt 5 7), []) \<and>
   update (liveGame [pt 10 10, pt 9 10, pt 8 10] (pt 1 0) (pt 5 7)) []
     = Returned (liveGame [pt 11 10, pt 10 10, pt 9 10] (pt 1 0) (pt 5 7), []) \<and>
   changeDirection (changeDirection (liveGame [pt 11 10, pt 10 10, pt 9 10] (pt 1 0) (pt 5 7)) 0 (- 1)) (- 1) 0
     = liveGame [pt 11 10, pt 10 10, pt 9 10] (pt (- 1) 0) (pt 5 7) \<and>
   direction (snake (liveGame [pt 11 10, pt 10 10, pt 9 10] (pt (- 1) 0) (pt 5 7)))
     = \<lparr>x = - x (direction (snake (liveGame [pt 10 10, pt 9 10, pt 8 10] (pt 1 0) (pt 5 7)))),
        y = - y (direction (snake (liveGame [pt 10 10, pt 9 10, pt 8 10] (pt 1 0) (pt 5 7))))\<rparr> \<and>
   update (liveGame [pt 11 10, pt 10 10, pt 9 10] (pt (- 1) 0) (pt 5 7)) []
     = Returned (liveGame [pt 11 10, pt 10 10, pt 9 10] (pt (- 1) 0) (pt 5 7)\<lparr>gameOver := True\<rparr>, [])"
proof (intro conjI)
  show "init zeroGame [4, 6] = Returned (liveGame [pt 10 10, pt 9 10, pt 8 10] (pt 1 0) (pt 5 7), [])"
    by code_simp
  show "update (liveGame [pt 10 10, pt 9 10, pt 8 10] (pt 1 0) (pt 5 7)) []
     = Returned (liveGame [pt 11 10, pt 10 10, pt 9 10] (pt 1 0) (pt 5 7), [])"
    by code_simp
  show "changeDirection (changeDirection (liveGame [pt 11 10, pt 10 10, pt 9 10] (pt 1 0) (pt 5 7)) 0 (- 1)) (- 1) 0
     = liveGame [pt 11 10, pt 10 10, pt 9 10] (pt (- 1) 0) (pt 5 7)"
    by code_simp
  show "direction (snake (liveGame [pt 11 10, pt 10 10, pt 9 10] (pt (- 1) 0) (pt 5 7)))
     = \<lparr>x = - x (direction (snake (liveGame [pt 10 10, pt 9 10, pt 8 10] (pt 1 0) (pt 5 7)))),
        y = - y (direction (snake (liveGame [pt 10 10, pt 9 10, pt 8 10] (pt 1 0) (pt 5 7))))\<rparr>"
    by (simp add: liveGame_def pt_def)
  show "update (liveGame [pt 11 10, pt 10 10, pt 9 10] (pt (- 1) 0) (pt 5 7)) []
     = Returned (liveGame [pt 11 10, pt 10 10, pt 9 10] (pt (- 1) 0) (pt 5 7)\<lparr>gameOver := True\<rparr>, [])"
    by code_simp
qed

subsection \<open>The reachable states stay inside the border\<close>

lemma interior_frame [simp]:
  "interior (g\<lparr>food := f\<rparr>) = interior g"
  "interior (g\<lparr>snake := s\<rparr>) = interior g"
  "interior (g\<lparr>score := n\<rparr>) = interior g"
  "interior (g\<lparr>gameOver := b\<rparr>) = interior g"
  "interior (g\<lparr>quit := b\<rparr>) = interior g"
  by (simp_all add: interior_def fun_eq_iff)

lemma init_boardInv:
  assumes "init g0 rs = Returned (g, rs')"
  shows "boardInv g"
proof -
  from init_Returned [OF assms] obtain f where
    g: "g = g0\<lparr>width := 40, height := 20,
               snake := \<lparr>body = [\<lparr>x = 10, y = 10\<rparr>, \<lparr>x = 9, y = 10\<rparr>, \<lparr>x = 8, y = 10\<rparr>],
                          direction = \<lparr>x = 1, y = 0\<rparr>\<rparr>,
               food := f, score := 0, gameOver := False, quit := False\<rparr>"
    and f: "1 <=s x f" "x f <=s 38" "1 <=s y f" "y f <=s 18"
    by blast
  have "interior g f" using f by (simp add: interior_def g)
  moreover have "list_all (interior g) (body (snake g))"
    by (simp add: interior_def g word_sle_eq)
  ultimately show ?thesis by (simp add: boardInv_def g)
qed

lemma spawnFood_boardInv:
  assumes "boardInv g" and "spawnFood g rs = Returned (g', rs')"
  shows "boardInv g'"
proof -
  from spawnFood_Returned [OF assms(2)] obtain f where
    "g' = g\<lparr>food := f\<rparr>" "interior g f"
    by (auto simp: interior_def)
  with assms(1) show ?thesis by (simp add: boardInv_def)
qed

lemma changeDirection_boardInv:
  "boardInv g \<Longrightarrow> boardInv (changeDirection g dx dy)"
  by (simp add: changeDirection_def boardInv_def)

lemma list_all_butlast: "list_all P xs \<Longrightarrow> list_all P (butlast xs)"
  by (auto simp: list_all_iff dest: in_set_butlastD)

lemma inside_interior:
  assumes "width g = 40" and "height g = 20" and "\<not> touchesBorder g p"
  shows "interior g p"
proof -
  from assms have "0 < sint (x p)" "sint (x p) < 39" "0 < sint (y p)" "sint (y p) < 19"
    by (simp_all add: touchesBorder_def word_sle_eq)
  then have "1 \<le> sint (x p)" "sint (x p) \<le> 38" "1 \<le> sint (y p)" "sint (y p) \<le> 18"
    by simp_all
  with assms(1,2) show ?thesis by (simp add: interior_def word_sle_eq)
qed

lemma update_boardInv:
  assumes inv: "boardInv g" and upd: "update g rs = Returned (g', rs')"
  shows "boardInv g'"
proof (cases "gameOver g \<or> quit g")
  case True
  with upd have "g' = g" by (simp add: update_def)
  with inv show ?thesis by simp
next
  case live: False
  from inv have "body (snake g) \<noteq> []" by (auto simp: boardInv_def)
  then obtain head rest where b: "body (snake g) = head # rest"
    by (cases "body (snake g)") auto
  let ?nh = "newHeadOf g head"
  show ?thesis
  proof (cases "touchesBorder g ?nh \<or> hitsBody ?nh (head # rest)")
    case True
    with live b upd have "g' = g\<lparr>gameOver := True\<rparr>"
      by (auto simp: update_def Let_def split: if_splits)
    with inv show ?thesis by (simp add: boardInv_def)
  next
    case False
    with inv have nh: "interior g ?nh"
      by (simp add: inside_interior boardInv_def)
    let ?g1 = "g\<lparr>snake := (snake g)\<lparr>body := ?nh # body (snake g)\<rparr>\<rparr>"
    show ?thesis
    proof (cases "x ?nh = x (food g) \<and> y ?nh = y (food g)")
      case True
      with live b False upd
      have "spawnFood (?g1\<lparr>score := score g + 1\<rparr>) rs = Returned (g', rs')"
        by (simp add: update_def Let_def)
      moreover have "boardInv (?g1\<lparr>score := score g + 1\<rparr>)"
        using inv nh by (simp add: boardInv_def)
      ultimately show ?thesis by (rule spawnFood_boardInv [rotated])
    next
      case nf: False
      then have ne: "(x ?nh = x (food g) \<and> y ?nh = y (food g)) = False" by simp
      from live b False upd
      have g': "g' = g\<lparr>snake := (snake g)\<lparr>body := ?nh # butlast (head # rest)\<rparr>\<rparr>"
        by (simp add: update_def Let_def ne)
      from inv b have "list_all (interior g) (butlast (head # rest))"
        by (simp only: boardInv_def list_all_butlast)
      with inv nh b show ?thesis
        by (auto simp: boardInv_def g')
    qed
  qed
qed

lemma reachable_boardInv: "reachable g \<Longrightarrow> boardInv g"
proof (induction rule: reachable.induct)
  case (reach_init g0 rs g rs')
  then show ?case by (rule init_boardInv)
next
  case (reach_update g rs g' rs')
  then show ?case by (simp add: update_boardInv)
next
  case (reach_changeDirection g dx dy)
  then show ?case by (simp add: changeDirection_boardInv)
next
  case (reach_spawnFood g rs g' rs')
  then show ?case by (simp add: spawnFood_boardInv)
qed

lemma spawnFood_no_panic:
  "\<not> width g - 2 <=s 0 \<Longrightarrow> \<not> height g - 2 <=s 0 \<Longrightarrow> spawnFood g rs \<noteq> Panicked p"
proof (induction g rs rule: spawnFood.induct)
  case (1 g rs)
  show ?case
  proof (cases "Intn (width g - 2) rs")
    case (Returned a)
    obtain rx rs1 where a: "a = (rx, rs1)" by (cases a)
    show ?thesis
    proof (cases "Intn (height g - 2) rs1")
      case R2: (Returned b)
      obtain ry rs2 where b: "b = (ry, rs2)" by (cases b)
      define g1 where "g1 = g\<lparr>food := \<lparr>x = rx + 1, y = ry + 1\<rparr>\<rparr>"
      show ?thesis
      proof (cases "valid (food g1) (body (snake g1))")
        case True
        with Returned a R2 b show ?thesis
          by (simp add: spawnFood.simps [of g rs] g1_def Let_def)
      next
        case False
        from "1.prems" have "\<not> width g1 - 2 <=s 0" "\<not> height g1 - 2 <=s 0"
          by (simp_all add: g1_def)
        with "1.IH" [OF Returned a [symmetric] R2 b [symmetric] g1_def False]
        have "spawnFood g1 rs2 \<noteq> Panicked p" by simp
        with False Returned a R2 b show ?thesis
          by (simp add: spawnFood.simps [of g rs] g1_def Let_def)
      qed
    next
      case (Panicked q)
      with "1.prems" show ?thesis by (simp split: if_splits list.splits)
    next
      case Pending
      with Returned a show ?thesis by (simp add: spawnFood.simps [of g rs])
    qed
  next
    case (Panicked q)
    with "1.prems" show ?thesis by (simp split: if_splits list.splits)
  next
    case Pending
    then show ?thesis by (simp add: spawnFood.simps [of g rs])
  qed
qed

lemma update_no_panic:
  assumes "boardInv g"
  shows "update g rs \<noteq> Panicked p"
proof -
  from assms have w: "width g = 40" "height g = 20" and "body (snake g) \<noteq> []"
    by (auto simp: boardInv_def)
  then obtain head rest where b: "body (snake g) = head # rest"
    by (cases "body (snake g)") auto
  have "spawnFood (g\<lparr>snake := s, score := n\<rparr>) rs \<noteq> Panicked p" for s n
    by (rule spawnFood_no_panic) (simp_all add: w word_sle_eq)
  then show ?thesis by (simp add: update_def b Let_def)
qed

lemma emptyBoard_dims:
  assumes "\<not> height g <s 0" and "\<not> width g <s 0"
  shows "\<exists>board. emptyBoard g = Returned board \<and> dims (unat (height g)) (unat (width g)) board"
  using assms by (simp add: emptyBoard_def dims_def list_all_iff)

lemma setCell_dims:
  assumes "dims h w board" and "\<not> y p <s 0" and "unat (y p) < h"
    and "\<not> x p <s 0" and "unat (x p) < w"
  shows "\<exists>board'. setCell board p r = Returned board' \<and> dims h w board'"
proof -
  let ?i = "unat (y p)" and ?j = "unat (x p)"
  from assms(1,3) have len: "?i < length board" and row: "length (board ! ?i) = w"
    and rows: "\<forall>row\<in>set board. length row = w"
    by (auto simp: dims_def list_all_iff)
  let ?b = "board[?i := (board ! ?i)[?j := r]]"
  from assms(2,4,5) len row have "setCell board p r = Returned ?b"
    by (simp add: setCell_def)
  moreover have "dims h w ?b"
  proof -
    have "set ?b \<subseteq> insert ((board ! ?i)[?j := r]) (set board)"
      by (rule set_update_subset_insert)
    with rows row have "\<forall>row\<in>set ?b. length row = w" by auto
    with assms(1) show ?thesis by (simp add: dims_def list_all_iff)
  qed
  ultimately show ?thesis by blast
qed

lemma drawSnake_dims:
  assumes "dims h w board"
    and "list_all (\<lambda>p. \<not> y p <s 0 \<and> unat (y p) < h \<and> \<not> x p <s 0 \<and> unat (x p) < w) segments"
  shows "\<exists>board'. drawSnake board segments = Returned board' \<and> dims h w board'"
  using assms
proof (induction segments arbitrary: board)
  case Nil
  then show ?case by simp
next
  case (Cons segment segments)
  from Cons.prems obtain board1 where
    "setCell board segment snakeRune = Returned board1" "dims h w board1"
    using setCell_dims [of h w board segment snakeRune] by auto
  moreover from Cons.IH [OF this(2)] Cons.prems(2) obtain board' where
    "drawSnake board1 segments = Returned board'" "dims h w board'"
    by auto
  ultimately show ?case by simp
qed

lemma interior_index:
  assumes "width g = 40" and "height g = 20" and "interior g p"
  shows "\<not> y p <s 0 \<and> unat (y p) < 20 \<and> \<not> x p <s 0 \<and> unat (x p) < 40"
proof -
  from assms have s: "1 \<le> sint (x p)" "sint (x p) \<le> 38" "1 \<le> sint (y p)" "sint (y p) \<le> 18"
    by (simp_all add: interior_def word_sle_eq)
  then have "0 <=s x p" "0 <=s y p" by (simp_all add: word_sle_eq)
  then have "int (unat (x p)) = sint (x p)" "int (unat (y p)) = sint (y p)"
    by (simp_all only: unat_nonneg)
  with s have "unat (x p) < 40" "unat (y p) < 20" by linarith+
  with s show ?thesis by (simp add: word_sless_alt)
qed

lemma render_returns:
  assumes "boardInv g"
  shows "\<exists>board. render g = Returned board \<and> dims 20 40 board"
proof -
  from assms have w: "width g = 40" "height g = 20"
    and segs: "list_all (interior g) (body (snake g))" and f: "interior g (food g)"
    by (simp_all add: boardInv_def)
  have "\<not> height g <s 0" "\<not> width g <s 0" "unat (height g) = 20" "unat (width g) = 40"
    by (simp_all add: w word_sless_alt)
  with emptyBoard_dims [of g] obtain board0 where
    b0: "emptyBoard g = Returned board0" "dims 20 40 board0"
    by auto
  from interior_index [OF w f] setCell_dims [OF b0(2), of "food g" foodRune]
  obtain board1 where b1: "setCell board0 (food g) foodRune = Returned board1" "dims 20 40 board1"
    by auto
  from segs have "list_all (\<lambda>p. \<not> y p <s 0 \<and> unat (y p) < 20 \<and> \<not> x p <s 0 \<and> unat (x p) < 40)
      (body (snake g))"
    using interior_index [OF w] by (auto simp: list_all_iff)
  from drawSnake_dims [OF b1(2) this] obtain board' where
    "drawSnake board1 (body (snake g)) = Returned board'" "dims 20 40 board'"
    by auto
  with b0 b1 show ?thesis by (simp add: render_def)
qed

text \<open>
  C10. In every state reachable from \<^verbatim>\<open>init\<close> by \<^verbatim>\<open>update\<close>, \<^verbatim>\<open>changeDirection\<close> and
  \<^verbatim>\<open>spawnFood\<close> calls, the body has at least 3 segments, every segment and the food lie
  strictly inside the border (\<open>1 \<le> x \<le> width - 2\<close>, \<open>1 \<le> y \<le> height - 2\<close>), and so
  \<^verbatim>\<open>update\<close> never panics (its \<^verbatim>\<open>body[0]\<close> is in range) and \<^verbatim>\<open>render\<close> returns its grid
  (every \<^verbatim>\<open>board[y][x]\<close> is in range).
\<close>

theorem reachable_in_bounds:
  assumes "reachable g"
  shows "3 \<le> length (body (snake g)) \<and>
         (\<forall>p\<in>set (body (snake g)).
            1 <=s x p \<and> x p <=s width g - 2 \<and> 1 <=s y p \<and> y p <=s height g - 2) \<and>
         (1 <=s x (food g) \<and> x (food g) <=s width g - 2 \<and>
          1 <=s y (food g) \<and> y (food g) <=s height g - 2) \<and>
         (\<forall>rs p. update g rs \<noteq> Panicked p) \<and>
         (\<exists>board. render g = Returned board)"
proof -
  from assms have inv: "boardInv g" by (rule reachable_boardInv)
  then have "3 \<le> length (body (snake g))"
    and "\<forall>p\<in>set (body (snake g)). interior g p" and "interior g (food g)"
    by (simp_all add: boardInv_def list_all_iff)
  moreover from inv have "\<forall>rs p. update g rs \<noteq> Panicked p"
    by (simp add: update_no_panic)
  moreover from render_returns [OF inv] have "\<exists>board. render g = Returned board"
    by blast
  ultimately show ?thesis by (simp add: interior_def)
qed

theorem reachable_in_bounds_witness:
  "reachable (liveGame [pt 11 10, pt 10 10, pt 9 10] (pt 0 (- 1)) (pt 5 7)) \<and>
   3 \<le> length (body (snake (liveGame [pt 11 10, pt 10 10, pt 9 10] (pt 0 (- 1)) (pt 5 7)))) \<and>
   (\<exists>board. render (liveGame [pt 11 10, pt 10 10, pt 9 10] (pt 0 (- 1)) (pt 5 7)) = Returned board)"
proof -
  have "init zeroGame [4, 6] = Returned (liveGame [pt 10 10, pt 9 10, pt 8 10] (pt 1 0) (pt 5 7), [])"
    by code_simp
  then have r1: "reachable (liveGame [pt 10 10, pt 9 10, pt 8 10] (pt 1 0) (pt 5 7))"
    by (rule reach_init)
  have "update (liveGame [pt 10 10, pt 9 10, pt 8 10] (pt 1 0) (pt 5 7)) []
     = Returned (liveGame [pt 11 10, pt 10 10, pt 9 10] (pt 1 0) (pt 5 7), [])"
    by code_simp
  with r1 have r2: "reachable (liveGame [pt 11 10, pt 10 10, pt 9 10] (pt 1 0) (pt 5 7))"
    by (rule reach_update)
  have "changeDirection (liveGame [pt 11 10, pt 10 10, pt 9 10] (pt 1 0) (pt 5 7)) 0 (- 1)
     = liveGame [pt 11 10, pt 10 10, pt 9 10] (pt 0 (- 1)) (pt 5 7)"
    by code_simp
  with reach_changeDirection [OF r2, of 0 "- 1"]
  have r3: "reachable (liveGame [pt 11 10, pt 10 10, pt 9 10] (pt 0 (- 1)) (pt 5 7))"
    by simp
  from reachable_in_bounds [OF r3] r3 show ?thesis by blast
qed

end
